theory Spec2Isabelle
  imports Complex_Main "HOL-Library.Multiset"
begin

section \<open>Documents of the store\<close>

text \<open>
  The backend keeps three collections: rooms, messages and users
  (\<^verbatim>\<open>models/Message.js\<close> holds the message and the room schema; the user
  schema belongs to an external collaborator and only its \<^verbatim>\<open>rooms\<close> list is
  touched by the routes). An ObjectId is an abstract identifier, a date is a
  number of milliseconds. A string is the list of its UTF-16 code units, and
  its length the number of them; \<open>units\<close> writes a string of ASCII
  characters.
\<close>

type_synonym objectId = nat
type_synonym date = nat
type_synonym jsString = "nat list"

definition units :: "string \<Rightarrow> jsString" where
  "units cs = map of_char cs"

datatype memberRole = Admin | Member

record memberDoc =
  user :: objectId
  joinedAt :: date
  role :: memberRole

record roomDoc =
  room_id :: objectId
  name :: jsString
  code :: jsString
  description :: "jsString option"
  creator :: objectId
  members :: "memberDoc list"
  maxMembers :: int
  isPrivate :: bool
  lastActivity :: date

text \<open>An entry of \<^verbatim>\<open>readBy\<close>: the source's field \<^verbatim>\<open>user\<close> is \<open>reader\<close> here.\<close>

record readDoc =
  reader :: objectId
  readAt :: date

record messageDoc =
  message_id :: objectId
  content :: jsString
  sender :: objectId
  room :: objectId
  type :: jsString
  edited :: bool
  editedAt :: "date option"
  readBy :: "readDoc list"
  replyTo :: "objectId option"
  createdAt :: date

record userDoc =
  user_id :: objectId
  rooms :: "objectId list"

record store =
  roomDocs :: "roomDoc list"
  messageDocs :: "messageDoc list"
  userDocs :: "userDoc list"

section \<open>Strings\<close>

text \<open>
  \<^verbatim>\<open>String.prototype.trim\<close> (also the \<^verbatim>\<open>trim\<close> setter of a schema) removes
  the white space and the line terminators of the language from both ends:
  tab, line feed, vertical tab, form feed, carriage return, space, no-break
  space (160), the other space separators of Unicode (5760, 8192 to 8202,
  8239, 8287, 12288), the line and paragraph separators (8232, 8233) and the
  byte order mark (65279).

  \<^verbatim>\<open>String.prototype.toUpperCase\<close> is the built-in of the language; its table
  of letters is not in the repository. Every function that calls it takes it
  as its first argument, named \<open>toUpperCase\<close>.
\<close>

definition isWhiteSpace :: "nat \<Rightarrow> bool" where
  "isWhiteSpace u =
     (u \<in> {9, 10, 11, 12, 13, 32, 160, 5760, 8232, 8233, 8239, 8287, 12288, 65279}
      \<or> (8192 \<le> u \<and> u \<le> 8202))"

definition trim :: "jsString \<Rightarrow> jsString" where
  "trim s = rev (dropWhile isWhiteSpace (rev (dropWhile isWhiteSpace s)))"

definition substring :: "nat \<Rightarrow> nat \<Rightarrow> jsString \<Rightarrow> jsString" where
  "substring a b s = take (b - a) (drop a s)"

section \<open>Responses\<close>

text \<open>
  The French texts of the replies are named by what they say. A reply carries
  its HTTP status and its JSON body. In a body, \<^verbatim>\<open>populate\<close> only decorates
  the documents with profiles of the user collection and is left out; where a
  route reads a populated field (the test of membership of the join and of
  the room details), it is modelled there.
\<close>

datatype notice =
    InvalidData
  | RoomCodeExists
  | RoomCreated
  | RoomNotFound
  | AlreadyMember
  | RoomFull
  | RoomJoined
  | UserNotFound
  | AccessDenied
  | RoomLeft
  | MessageSent
  | MessageNotFound
  | MarkedRead
  | ContentRequired
  | OnlyOwnEdit
  | MessageEdited
  | OnlyOwnDelete
  | MessageDeleted
  | InternalError

record pagination =
  currentPage :: int
  totalPages :: int
  totalMessages :: nat
  hasMore :: bool

datatype json =
    Msg notice
  | MsgRoom notice roomDoc
  | OneRoom roomDoc
  | Rooms "roomDoc list"
  | MsgData notice messageDoc
  | Page "messageDoc list" pagination

record response =
  status :: nat
  body :: json

definition reply :: "nat \<Rightarrow> json \<Rightarrow> response" where
  "reply st b = \<lparr>status = st, body = b\<rparr>"

section \<open>Queries and writes on the collections\<close>

definition findRoomById :: "store \<Rightarrow> objectId \<Rightarrow> roomDoc option" where
  "findRoomById s rid = find (\<lambda>r. room_id r = rid) (roomDocs s)"

definition findRoomByCode :: "store \<Rightarrow> jsString \<Rightarrow> roomDoc option" where
  "findRoomByCode s c = find (\<lambda>r. code r = c) (roomDocs s)"

definition findMessageById :: "store \<Rightarrow> objectId \<Rightarrow> messageDoc option" where
  "findMessageById s mid = find (\<lambda>m. message_id m = mid) (messageDocs s)"

text \<open>Writing a loaded document back replaces the stored document of the same id.\<close>

fun replaceRoom :: "roomDoc \<Rightarrow> roomDoc list \<Rightarrow> roomDoc list" where
  "replaceRoom r [] = []"
| "replaceRoom r (x # xs) =
     (if room_id x = room_id r then r # xs else x # replaceRoom r xs)"

fun replaceMessage :: "messageDoc \<Rightarrow> messageDoc list \<Rightarrow> messageDoc list" where
  "replaceMessage m [] = []"
| "replaceMessage m (x # xs) =
     (if message_id x = message_id m then m # xs else x # replaceMessage m xs)"

text \<open>
  \<^verbatim>\<open>roomSchema.pre('save')\<close>: every save of a room stamps \<^verbatim>\<open>lastActivity\<close>.
\<close>

definition preSave :: "date \<Rightarrow> roomDoc \<Rightarrow> roomDoc" where
  "preSave now r = r\<lparr>lastActivity := now\<rparr>"

definition saveRoom :: "date \<Rightarrow> roomDoc \<Rightarrow> store \<Rightarrow> store" where
  "saveRoom now r s = s\<lparr>roomDocs := replaceRoom (preSave now r) (roomDocs s)\<rparr>"

definition saveMessage :: "messageDoc \<Rightarrow> store \<Rightarrow> store" where
  "saveMessage m s = s\<lparr>messageDocs := replaceMessage m (messageDocs s)\<rparr>"

text \<open>\<^verbatim>\<open>User.findByIdAndUpdate\<close> with \<^verbatim>\<open>$push\<close> and with \<^verbatim>\<open>$pull\<close> on \<^verbatim>\<open>rooms\<close>.\<close>

definition pushUserRoom :: "objectId \<Rightarrow> objectId \<Rightarrow> store \<Rightarrow> store" where
  "pushUserRoom uid rid s =
     s\<lparr>userDocs := map (\<lambda>u. if user_id u = uid then u\<lparr>rooms := rooms u @ [rid]\<rparr> else u)
                       (userDocs s)\<rparr>"

definition pullUserRoom :: "objectId \<Rightarrow> objectId \<Rightarrow> store \<Rightarrow> store" where
  "pullUserRoom uid rid s =
     s\<lparr>userDocs := map (\<lambda>u. if user_id u = uid then u\<lparr>rooms := removeAll rid (rooms u)\<rparr> else u)
                       (userDocs s)\<rparr>"

text \<open>\<^verbatim>\<open>room.members.some(member => member.user.toString() === req.userId)\<close>\<close>

definition isMember :: "roomDoc \<Rightarrow> objectId \<Rightarrow> bool" where
  "isMember r uid = list_ex (\<lambda>m. user m = uid) (members r)"

section \<open>Schema of a message\<close>

text \<open>
  \<^verbatim>\<open>messageSchema.content\<close>: the setter trims, the validators at save time
  require a non-empty string of at most 1000 characters.
  \<^verbatim>\<open>messageSchema.type\<close> is one of four strings.
\<close>

definition contentValid :: "jsString \<Rightarrow> bool" where
  "contentValid c = (c \<noteq> [] \<and> length c \<le> 1000)"

definition typeValid :: "jsString \<Rightarrow> bool" where
  "typeValid t = (t \<in> set [units ''text'', units ''image'', units ''file'', units ''system''])"

text \<open>
  \<^verbatim>\<open>new Message({...})\<close> followed by the validation of \<^verbatim>\<open>save\<close>; \<open>None\<close> is
  the ValidationError.
\<close>

definition newMessage ::
  "objectId \<Rightarrow> date \<Rightarrow> jsString option \<Rightarrow> objectId \<Rightarrow> objectId \<Rightarrow> jsString \<Rightarrow> objectId option
     \<Rightarrow> messageDoc option" where
  "newMessage newId now c sndr rm ty rep =
     (case c of
        None \<Rightarrow> None
      | Some c0 \<Rightarrow>
          if contentValid (trim c0) \<and> typeValid ty
          then Some \<lparr>message_id = newId, content = trim c0, sender = sndr, room = rm,
                     type = ty, edited = False, editedAt = None, readBy = [],
                     replyTo = rep, createdAt = now\<rparr>
          else None)"

text \<open>Inserting a document whose \<^verbatim>\<open>_id\<close> is taken is a duplicate key error.\<close>

definition insertMessage :: "messageDoc \<Rightarrow> store \<Rightarrow> store option" where
  "insertMessage m s =
     (if list_ex (\<lambda>x. message_id x = message_id m) (messageDocs s) then None
      else Some (s\<lparr>messageDocs := messageDocs s @ [m]\<rparr>))"

fun deleteMessageById :: "objectId \<Rightarrow> messageDoc list \<Rightarrow> messageDoc list" where
  "deleteMessageById mid [] = []"
| "deleteMessageById mid (x # xs) =
     (if message_id x = mid then xs else x # deleteMessageById mid xs)"

section \<open>The message routes (routes/messages.js)\<close>

text \<open>
  Every handler takes the store, the caller \<^verbatim>\<open>req.userId\<close> and the parts of the
  request, and returns the reply with the store after the request. \<open>now\<close> is
  the clock of the request and \<open>newId\<close> the ObjectId of a created document.
  An exception inside a handler is the reply 500.
\<close>

definition sendMessageSchema ::
  "jsString option \<Rightarrow> objectId option \<Rightarrow> jsString option \<Rightarrow> objectId option \<Rightarrow> bool" where
  "sendMessageSchema c rid ty rep =
     ((case c of None \<Rightarrow> False | Some c0 \<Rightarrow> 1 \<le> length c0 \<and> length c0 \<le> 1000)
      \<and> rid \<noteq> None
      \<and> (case ty of None \<Rightarrow> True
          | Some t \<Rightarrow> t \<in> set [units ''text'', units ''image'', units ''file'']))"

definition roomMessages :: "store \<Rightarrow> objectId \<Rightarrow> messageDoc list" where
  "roomMessages s rid = filter (\<lambda>m. room m = rid) (messageDocs s)"

text \<open>\<^verbatim>\<open>.sort({ createdAt: -1 })\<close>\<close>

definition newestFirst :: "messageDoc list \<Rightarrow> messageDoc list" where
  "newestFirst ms = rev (sort_key createdAt ms)"

text \<open>
  \<^verbatim>\<open>parseInt(q) || d\<close>: \<open>None\<close> is NaN, and \<^verbatim>\<open>||\<close> replaces NaN and 0 by the
  default; a negative number stays.
\<close>

definition orElse :: "int option \<Rightarrow> int \<Rightarrow> int" where
  "orElse q d = (case q of None \<Rightarrow> d | Some n \<Rightarrow> if n = 0 then d else n)"

text \<open>
  \<^verbatim>\<open>.sort({ createdAt: -1 }).limit(limit).skip(skip)\<close> on the documents of
  the query: the store skips, then limits. What the driver of the store does
  with a negative skip or limit is not in the source: \<open>cursor\<close> stands for
  it (\<open>None\<close> is a rejected query).
\<close>

definition findPage ::
  "(int \<Rightarrow> int \<Rightarrow> messageDoc list \<Rightarrow> messageDoc list option)
     \<Rightarrow> int \<Rightarrow> int \<Rightarrow> messageDoc list \<Rightarrow> messageDoc list option" where
  "findPage cursor limit skip ms =
     (if 0 \<le> skip \<and> 0 < limit
      then Some (take (nat limit) (drop (nat skip) (newestFirst ms)))
      else cursor limit skip ms)"

text \<open>
  \<^verbatim>\<open>GET /room/:roomId\<close>. \<open>pageQ\<close> and \<open>limitQ\<close> are the results of
  \<^verbatim>\<open>parseInt\<close> on the query.
\<close>

definition listMessages ::
  "(int \<Rightarrow> int \<Rightarrow> messageDoc list \<Rightarrow> messageDoc list option)
     \<Rightarrow> store \<Rightarrow> objectId \<Rightarrow> objectId \<Rightarrow> int option \<Rightarrow> int option \<Rightarrow> response" where
  "listMessages cursor s userId roomId pageQ limitQ =
     (let page = orElse pageQ 1;
          limit = orElse limitQ 50;
          skip = (page - 1) * limit
      in case findRoomById s roomId of
           None \<Rightarrow> reply 404 (Msg RoomNotFound)
         | Some rm \<Rightarrow>
             if \<not> isMember rm userId then reply 403 (Msg AccessDenied)
             else
               (case findPage cursor limit skip (roomMessages s roomId) of
                  None \<Rightarrow> reply 500 (Msg InternalError)
                | Some messages \<Rightarrow>
                    (let total = length (roomMessages s roomId)
                     in reply 200
                          (Page (rev messages)
                             \<lparr>currentPage = page,
                              totalPages = \<lceil>real total / real_of_int limit\<rceil>,
                              totalMessages = total,
                              hasMore = (skip + int (length messages) < int total)\<rparr>))))"

text \<open>\<^verbatim>\<open>POST /send\<close>\<close>

definition sendMessage ::
  "store \<Rightarrow> objectId \<Rightarrow> date \<Rightarrow> objectId
     \<Rightarrow> jsString option \<Rightarrow> objectId option \<Rightarrow> jsString option \<Rightarrow> objectId option
     \<Rightarrow> response \<times> store" where
  "sendMessage s newId now userId c roomId ty rep =
     (if \<not> sendMessageSchema c roomId ty rep then (reply 400 (Msg InvalidData), s)
      else
        (case (case roomId of None \<Rightarrow> None | Some rid \<Rightarrow> findRoomById s rid) of
           None \<Rightarrow> (reply 404 (Msg RoomNotFound), s)
         | Some rm \<Rightarrow>
             if \<not> isMember rm userId then (reply 403 (Msg AccessDenied), s)
             else
               (let ty' = (case ty of None \<Rightarrow> units ''text''
                           | Some t \<Rightarrow> if t = [] then units ''text'' else t)
                in (case newMessage newId now c userId (room_id rm) ty' rep of
                      None \<Rightarrow> (reply 500 (Msg InternalError), s)
                    | Some message \<Rightarrow>
                        (case insertMessage message s of
                           None \<Rightarrow> (reply 500 (Msg InternalError), s)
                         | Some s' \<Rightarrow>
                             (reply 201 (MsgData MessageSent message),
                              saveRoom now (rm\<lparr>lastActivity := now\<rparr>) s'))))))"

text \<open>\<^verbatim>\<open>POST /:messageId/read\<close>\<close>

definition markRead :: "store \<Rightarrow> date \<Rightarrow> objectId \<Rightarrow> objectId \<Rightarrow> response \<times> store" where
  "markRead s now userId messageId =
     (case findMessageById s messageId of
        None \<Rightarrow> (reply 404 (Msg MessageNotFound), s)
      | Some message \<Rightarrow>
          let alreadyRead = list_ex (\<lambda>rd. reader rd = userId) (readBy message)
          in if \<not> alreadyRead
             then (reply 200 (Msg MarkedRead),
                   saveMessage
                     (message\<lparr>readBy := readBy message @ [\<lparr>reader = userId, readAt = now\<rparr>]\<rparr>) s)
             else (reply 200 (Msg MarkedRead), s))"

text \<open>
  \<^verbatim>\<open>PUT /:messageId\<close>. The body's \<^verbatim>\<open>content\<close> is absent or a string. The save
  validates the modified path \<^verbatim>\<open>content\<close>.
\<close>

definition editMessage ::
  "store \<Rightarrow> date \<Rightarrow> objectId \<Rightarrow> objectId \<Rightarrow> jsString option \<Rightarrow> response \<times> store" where
  "editMessage s now userId messageId c =
     (case c of
        None \<Rightarrow> (reply 400 (Msg ContentRequired), s)
      | Some c0 \<Rightarrow>
          if c0 = [] \<or> length (trim c0) = 0 then (reply 400 (Msg ContentRequired), s)
          else
            (case findMessageById s messageId of
               None \<Rightarrow> (reply 404 (Msg MessageNotFound), s)
             | Some message \<Rightarrow>
                 if sender message \<noteq> userId then (reply 403 (Msg OnlyOwnEdit), s)
                 else
                   (let message' = message\<lparr>content := trim (trim c0), edited := True,
                                            editedAt := Some now\<rparr>
                    in if contentValid (content message')
                       then (reply 200 (MsgData MessageEdited message'), saveMessage message' s)
                       else (reply 500 (Msg InternalError), s))))"

text \<open>\<^verbatim>\<open>DELETE /:messageId\<close>\<close>

definition deleteMessage :: "store \<Rightarrow> objectId \<Rightarrow> objectId \<Rightarrow> response \<times> store" where
  "deleteMessage s userId messageId =
     (case findMessageById s messageId of
        None \<Rightarrow> (reply 404 (Msg MessageNotFound), s)
      | Some message \<Rightarrow>
          if sender message \<noteq> userId then (reply 403 (Msg OnlyOwnDelete), s)
          else (reply 200 (Msg MessageDeleted),
                s\<lparr>messageDocs := deleteMessageById messageId (messageDocs s)\<rparr>))"

section \<open>Schema of a room\<close>

text \<open>
  \<^verbatim>\<open>new Room({...})\<close> followed by the validation of \<^verbatim>\<open>save\<close>: the name is
  trimmed and required, at most 50 characters; the code is stored in upper
  case, required, of 4 to 8 characters; the description has at most 200
  characters; \<^verbatim>\<open>maxMembers\<close> lies between 2 and 100. The creator is the first
  member, an admin. \<open>None\<close> is the ValidationError.
\<close>

definition newRoom ::
  "(jsString \<Rightarrow> jsString) \<Rightarrow> objectId \<Rightarrow> date \<Rightarrow> jsString option \<Rightarrow> jsString \<Rightarrow> jsString option \<Rightarrow> objectId \<Rightarrow> int \<Rightarrow> bool
     \<Rightarrow> roomDoc option" where
  "newRoom toUpperCase newId now nm cd desc uid mx priv =
     (case nm of
        None \<Rightarrow> None
      | Some n \<Rightarrow>
          if trim n \<noteq> [] \<and> length (trim n) \<le> 50
             \<and> toUpperCase cd \<noteq> [] \<and> 4 \<le> length (toUpperCase cd) \<and> length (toUpperCase cd) \<le> 8
             \<and> (case desc of None \<Rightarrow> True | Some d \<Rightarrow> length d \<le> 200)
             \<and> 2 \<le> mx \<and> mx \<le> 100
          then Some \<lparr>room_id = newId, name = trim n, code = toUpperCase cd,
                     description = desc, creator = uid,
                     members = [\<lparr>user = uid, joinedAt = now, role = Admin\<rparr>],
                     maxMembers = mx, isPrivate = priv, lastActivity = now\<rparr>
          else None)"

text \<open>
  The collection has a unique index on \<^verbatim>\<open>code\<close> (and on \<^verbatim>\<open>_id\<close>): inserting
  a second document with the same value is a duplicate key error.
\<close>

definition insertRoom :: "roomDoc \<Rightarrow> store \<Rightarrow> store option" where
  "insertRoom r s =
     (if list_ex (\<lambda>x. room_id x = room_id r \<or> code x = code r) (roomDocs s) then None
      else Some (s\<lparr>roomDocs := roomDocs s @ [r]\<rparr>))"

section \<open>The room routes (routes/room.js)\<close>

definition createRoomSchema ::
  "jsString option \<Rightarrow> jsString option \<Rightarrow> jsString option \<Rightarrow> int option \<Rightarrow> bool option \<Rightarrow> bool" where
  "createRoomSchema nm cd desc mx priv =
     ((case nm of None \<Rightarrow> False | Some n \<Rightarrow> 1 \<le> length n \<and> length n \<le> 50)
      \<and> (case cd of None \<Rightarrow> False | Some c \<Rightarrow> 4 \<le> length c \<and> length c \<le> 8)
      \<and> (case desc of None \<Rightarrow> True | Some d \<Rightarrow> d \<noteq> [] \<and> length d \<le> 200)
      \<and> (case mx of None \<Rightarrow> True | Some m \<Rightarrow> 2 \<le> m \<and> m \<le> 100))"

definition joinRoomSchema :: "jsString option \<Rightarrow> bool" where
  "joinRoomSchema cd = (case cd of None \<Rightarrow> False | Some c \<Rightarrow> 4 \<le> length c \<and> length c \<le> 8)"

text \<open>
  \<^verbatim>\<open>Math.random().toString(36).substring(2, 8).toUpperCase()\<close>: the argument is
  the base 36 text of the random number, such as \<^verbatim>\<open>0.4fzyo82mvyr\<close>.
\<close>

definition generateRoomCode :: "(jsString \<Rightarrow> jsString) \<Rightarrow> jsString \<Rightarrow> jsString" where
  "generateRoomCode toUpperCase r = toUpperCase (substring 2 8 r)"

text \<open>
  \<^verbatim>\<open>while (await Room.findOne({ code })) { code = generateRoomCode(); }\<close>
  where \<open>rnd\<close> is the sequence of the random texts and \<open>i\<close> the number of
  those used so far. The loop need not end.
\<close>

partial_function (option) regenerate ::
  "(jsString \<Rightarrow> jsString) \<Rightarrow> store \<Rightarrow> (nat \<Rightarrow> jsString) \<Rightarrow> nat \<Rightarrow> jsString
     \<Rightarrow> jsString option" where
  "regenerate toUpperCase s rnd i c =
     (if findRoomByCode s c \<noteq> None
      then regenerate toUpperCase s rnd (Suc i) (generateRoomCode toUpperCase (rnd (Suc i)))
      else Some c)"

text \<open>\<^verbatim>\<open>POST /create\<close>; \<open>None\<close> is a request that never returns.\<close>

definition createRoom ::
  "(jsString \<Rightarrow> jsString) \<Rightarrow> store \<Rightarrow> (nat \<Rightarrow> jsString) \<Rightarrow> objectId \<Rightarrow> date \<Rightarrow> objectId
     \<Rightarrow> jsString option \<Rightarrow> jsString option \<Rightarrow> jsString option \<Rightarrow> int option \<Rightarrow> bool option
     \<Rightarrow> (response \<times> store) option" where
  "createRoom toUpperCase s rnd newId now userId nm cd desc mx priv =
     (if \<not> createRoomSchema nm cd desc mx priv then Some (reply 400 (Msg InvalidData), s)
      else
        (case (case cd of
                 None \<Rightarrow> regenerate toUpperCase s rnd 0 (generateRoomCode toUpperCase (rnd 0))
               | Some c \<Rightarrow>
                   if c = []
                   then regenerate toUpperCase s rnd 0 (generateRoomCode toUpperCase (rnd 0))
                   else Some c) of
           None \<Rightarrow> None
         | Some c \<Rightarrow>
             Some
               (case findRoomByCode s (toUpperCase c) of
                  Some existingRoom \<Rightarrow> (reply 409 (Msg RoomCodeExists), s)
                | None \<Rightarrow>
                    (case newRoom toUpperCase newId now nm c desc userId
                            (case mx of None \<Rightarrow> 50 | Some m \<Rightarrow> if m = 0 then 50 else m)
                            (case priv of None \<Rightarrow> False | Some b \<Rightarrow> b) of
                       None \<Rightarrow> (reply 500 (Msg InternalError), s)
                     | Some rm \<Rightarrow>
                         (case insertRoom (preSave now rm) s of
                            None \<Rightarrow> (reply 500 (Msg InternalError), s)
                          | Some s' \<Rightarrow>
                              (reply 201 (MsgRoom RoomCreated (preSave now rm)),
                               pushUserRoom userId (room_id rm) s'))))))"

text \<open>
  \<^verbatim>\<open>.populate('members.user', ...)\<close> puts the user document in the place of
  the reference of a member, and null where the user collection has no such
  document. On the populated members,
  \<^verbatim>\<open>room.members.some(member => member.user._id.toString() === req.userId)\<close>
  reads \<^verbatim>\<open>_id\<close> of every member up to the first that is the caller: on null
  that is a TypeError, here \<open>None\<close>.
\<close>

fun someMemberPopulated :: "userDoc list \<Rightarrow> objectId \<Rightarrow> memberDoc list \<Rightarrow> bool option" where
  "someMemberPopulated us uid [] = Some False"
| "someMemberPopulated us uid (m # ms) =
     (case find (\<lambda>u. user_id u = user m) us of
        None \<Rightarrow> None
      | Some u \<Rightarrow> if user_id u = uid then Some True else someMemberPopulated us uid ms)"

text \<open>\<^verbatim>\<open>POST /join\<close>\<close>

definition joinRoom ::
  "(jsString \<Rightarrow> jsString) \<Rightarrow> store \<Rightarrow> date \<Rightarrow> objectId \<Rightarrow> jsString option
     \<Rightarrow> response \<times> store" where
  "joinRoom toUpperCase s now userId cd =
     (if \<not> joinRoomSchema cd then (reply 400 (Msg InvalidData), s)
      else
        (case cd of
           None \<Rightarrow> (reply 500 (Msg InternalError), s)
         | Some c \<Rightarrow>
             (case findRoomByCode s (toUpperCase c) of
                None \<Rightarrow> (reply 404 (Msg RoomNotFound), s)
              | Some rm \<Rightarrow>
                  (case someMemberPopulated (userDocs s) userId (members rm) of
                     None \<Rightarrow> (reply 500 (Msg InternalError), s)
                   | Some isMem \<Rightarrow>
                       if isMem then (reply 409 (Msg AlreadyMember), s)
                       else if int (length (members rm)) \<ge> maxMembers rm
                       then (reply 409 (Msg RoomFull), s)
                       else
                         (let rm' = rm\<lparr>members := members rm
                                        @ [\<lparr>user = userId, joinedAt = now, role = Member\<rparr>]\<rparr>
                          in (reply 200 (MsgRoom RoomJoined (preSave now rm')),
                              pushUserRoom userId (room_id rm) (saveRoom now rm' s)))))))"

text \<open>\<^verbatim>\<open>GET /my-rooms\<close>: the references of the user that still resolve.\<close>

definition listMyRooms :: "store \<Rightarrow> objectId \<Rightarrow> response" where
  "listMyRooms s userId =
     (case find (\<lambda>u. user_id u = userId) (userDocs s) of
        None \<Rightarrow> reply 404 (Msg UserNotFound)
      | Some u \<Rightarrow> reply 200 (Rooms (List.map_filter (findRoomById s) (rooms u))))"

text \<open>\<^verbatim>\<open>GET /:roomId\<close>, with the members populated as in the join.\<close>

definition getRoom :: "store \<Rightarrow> objectId \<Rightarrow> objectId \<Rightarrow> response" where
  "getRoom s userId roomId =
     (case findRoomById s roomId of
        None \<Rightarrow> reply 404 (Msg RoomNotFound)
      | Some rm \<Rightarrow>
          (case someMemberPopulated (userDocs s) userId (members rm) of
             None \<Rightarrow> reply 500 (Msg InternalError)
           | Some isMem \<Rightarrow>
               if \<not> isMem then reply 403 (Msg AccessDenied)
               else reply 200 (OneRoom rm)))"

text \<open>\<^verbatim>\<open>POST /:roomId/leave\<close>\<close>

definition leaveRoom :: "store \<Rightarrow> date \<Rightarrow> objectId \<Rightarrow> objectId \<Rightarrow> response \<times> store" where
  "leaveRoom s now userId roomId =
     (case findRoomById s roomId of
        None \<Rightarrow> (reply 404 (Msg RoomNotFound), s)
      | Some rm \<Rightarrow>
          (reply 200 (Msg RoomLeft),
           pullUserRoom userId (room_id rm)
             (saveRoom now (rm\<lparr>members := filter (\<lambda>m. user m \<noteq> userId) (members rm)\<rparr>) s)))"

section \<open>Requests\<close>

text \<open>The two routers dispatch a request to its handler.\<close>

datatype request =
    CreateRoom "jsString option" "jsString option" "jsString option" "int option" "bool option"
  | JoinRoom "jsString option"
  | ListMyRooms
  | GetRoom objectId
  | LeaveRoom objectId
  | ListMessages objectId "int option" "int option"
  | SendMessage "jsString option" "objectId option" "jsString option" "objectId option"
  | MarkRead objectId
  | EditMessage objectId "jsString option"
  | DeleteMessage objectId

fun router ::
  "(jsString \<Rightarrow> jsString) \<Rightarrow> (int \<Rightarrow> int \<Rightarrow> messageDoc list \<Rightarrow> messageDoc list option)
     \<Rightarrow> store \<Rightarrow> (nat \<Rightarrow> jsString) \<Rightarrow> objectId \<Rightarrow> date \<Rightarrow> objectId \<Rightarrow> request
     \<Rightarrow> (response \<times> store) option" where
  "router toUpperCase cursor s rnd newId now userId (CreateRoom nm cd desc mx priv) =
     createRoom toUpperCase s rnd newId now userId nm cd desc mx priv"
| "router toUpperCase cursor s rnd newId now userId (JoinRoom cd) =
     Some (joinRoom toUpperCase s now userId cd)"
| "router toUpperCase cursor s rnd newId now userId ListMyRooms = Some (listMyRooms s userId, s)"
| "router toUpperCase cursor s rnd newId now userId (GetRoom rid) = Some (getRoom s userId rid, s)"
| "router toUpperCase cursor s rnd newId now userId (LeaveRoom rid) =
     Some (leaveRoom s now userId rid)"
| "router toUpperCase cursor s rnd newId now userId (ListMessages rid pageQ limitQ) =
     Some (listMessages cursor s userId rid pageQ limitQ, s)"
| "router toUpperCase cursor s rnd newId now userId (SendMessage c rid ty rep) =
     Some (sendMessage s newId now userId c rid ty rep)"
| "router toUpperCase cursor s rnd newId now userId (MarkRead mid) =
     Some (markRead s now userId mid)"
| "router toUpperCase cursor s rnd newId now userId (EditMessage mid c) =
     Some (editMessage s now userId mid c)"
| "router toUpperCase cursor s rnd newId now userId (DeleteMessage mid) =
     Some (deleteMessage s userId mid)"

section \<open>Properties of the store\<close>

text \<open>No two rooms share a code, and every stored code is in upper case.\<close>

definition codesUnique :: "store \<Rightarrow> bool" where
  "codesUnique s = distinct (map code (roomDocs s))"

definition codesUpper :: "(jsString \<Rightarrow> jsString) \<Rightarrow> store \<Rightarrow> bool" where
  "codesUpper toUpperCase s = list_all (\<lambda>r. code r = toUpperCase (code r)) (roomDocs s)"

text \<open>
  The store keeps \<^verbatim>\<open>_id\<close> unique in a collection. A store of rooms is well
  formed when the ids and the codes are unique.
\<close>

definition idsUnique :: "store \<Rightarrow> bool" where
  "idsUnique s = distinct (map room_id (roomDocs s))"

definition wellFormed :: "store \<Rightarrow> bool" where
  "wellFormed s = (idsUnique s \<and> codesUnique s)"


text \<open>The id and the code of every stored room, in the order of the collection.\<close>

definition roomKeys :: "store \<Rightarrow> (objectId \<times> jsString) list" where
  "roomKeys s = map (\<lambda>r. (room_id r, code r)) (roomDocs s)"

text \<open>The entries of a user in the read receipts of a message.\<close>

definition readEntries :: "objectId \<Rightarrow> messageDoc \<Rightarrow> readDoc list" where
  "readEntries uid m = filter (\<lambda>rd. reader rd = uid) (readBy m)"

text \<open>
  The same user marking the same message once per clock value of the list:
  the replies in order and the store after the last call.
\<close>

fun markReadRepeat ::
  "store \<Rightarrow> objectId \<Rightarrow> objectId \<Rightarrow> date list \<Rightarrow> response list \<times> store" where
  "markReadRepeat s userId messageId [] = ([], s)"
| "markReadRepeat s userId messageId (t # ts) =
     (let (r, s1) = markRead s t userId messageId;
          (rs, s2) = markReadRepeat s1 userId messageId ts
      in (r # rs, s2))"

section \<open>A sample store\<close>

text \<open>
  Two users share no room: user 10 created the room TEAM and wrote its five
  messages, user 11 is a member of nothing. The room FULL has reached its two
  members.
\<close>

definition sampleRoom :: roomDoc where
  "sampleRoom =
     \<lparr>room_id = 1, name = units ''Team'', code = units ''TEAM'', description = None,
      creator = 10, members = [\<lparr>user = 10, joinedAt = 0, role = Admin\<rparr>],
      maxMembers = 50, isPrivate = False, lastActivity = 0\<rparr>"

definition fullRoom :: roomDoc where
  "fullRoom =
     \<lparr>room_id = 2, name = units ''Pair'', code = units ''FULL'', description = None,
      creator = 10,
      members = [\<lparr>user = 10, joinedAt = 0, role = Admin\<rparr>,
                 \<lparr>user = 12, joinedAt = 1, role = Member\<rparr>],
      maxMembers = 2, isPrivate = False, lastActivity = 1\<rparr>"

definition sampleMessage :: "nat \<Rightarrow> messageDoc" where
  "sampleMessage i =
     \<lparr>message_id = 100 + i, content = units ''hi'', sender = 10, room = 1,
      type = units ''text'', edited = False, editedAt = None, readBy = [], replyTo = None,
      createdAt = i\<rparr>"

definition sampleStore :: store where
  "sampleStore =
     \<lparr>roomDocs = [sampleRoom, fullRoom],
      messageDocs = [sampleMessage 1, sampleMessage 2, sampleMessage 3, sampleMessage 4,
                     sampleMessage 5],
      userDocs = [\<lparr>user_id = 10, rooms = [1, 2]\<rparr>, \<lparr>user_id = 11, rooms = []\<rparr>,
                  \<lparr>user_id = 12, rooms = [2]\<rparr>]\<rparr>"

text \<open>The same store after the user collection has lost the document of user 12.\<close>

definition orphanStore :: store where
  "orphanStore =
     sampleStore\<lparr>userDocs := [\<lparr>user_id = 10, rooms = [1, 2]\<rparr>, \<lparr>user_id = 11, rooms = []\<rparr>]\<rparr>"

text \<open>
  The store before user 12, who has no document in the user collection,
  joined the room FULL.
\<close>

definition openStore :: store where
  "openStore =
     orphanStore\<lparr>roomDocs :=
       [sampleRoom,
        fullRoom\<lparr>members := [\<lparr>user = 10, joinedAt = 0, role = Admin\<rparr>], lastActivity := 0\<rparr>]\<rparr>"

text \<open>A message of another room, later than the five of the room TEAM.\<close>

definition otherMessage :: messageDoc where
  "otherMessage = (sampleMessage 6)\<lparr>room := 2\<rparr>"

definition mixedStore :: store where
  "mixedStore = sampleStore\<lparr>messageDocs := otherMessage # messageDocs sampleStore\<rparr>"

definition sampleDraws :: "nat \<Rightarrow> jsString" where
  "sampleDraws i = units ''0.4fzyo82mvyr''"

text \<open>
  On strings of ASCII characters \<^verbatim>\<open>toUpperCase\<close> moves the letters a to z to
  A to Z; the sample requests hold no other characters.
\<close>

definition asciiUpper :: "jsString \<Rightarrow> jsString" where
  "asciiUpper s = map (\<lambda>u. if 97 \<le> u \<and> u \<le> 122 then u - 32 else u) s"

text \<open>A driver that rejects every negative skip or limit.\<close>

definition rejectingCursor :: "int \<Rightarrow> int \<Rightarrow> messageDoc list \<Rightarrow> messageDoc list option" where
  "rejectingCursor limit skip ms = None"


section \<open>Strings: facts\<close>

lemma dropWhile_head: "dropWhile P s = a # as \<Longrightarrow> \<not> P a"
  using hd_dropWhile [of P s] by simp

lemma trim_Nil_iff: "trim s = [] \<longleftrightarrow> (\<forall>ch\<in>set s. isWhiteSpace ch)"
proof (cases "dropWhile isWhiteSpace s")
  case Nil
  have "trim s = []" unfolding trim_def Nil by simp
  moreover have "\<forall>ch\<in>set s. isWhiteSpace ch" using Nil by simp
  ultimately show ?thesis by simp
next
  case (Cons a as)
  then have a: "\<not> isWhiteSpace a" by (rule dropWhile_head)
  have "a \<in> set s" using Cons set_dropWhileD [of a isWhiteSpace s] by simp
  with a Cons show ?thesis by (auto simp add: trim_def dropWhile_eq_Nil_conv)
qed

lemma dropWhile_rev_noop:
  assumes "xs = [] \<or> \<not> P (hd xs)"
  shows "dropWhile P (rev (dropWhile P (rev xs))) = rev (dropWhile P (rev xs))"
proof (cases "rev (dropWhile P (rev xs))")
  case Nil
  show ?thesis unfolding Nil by simp
next
  case (Cons y ys)
  define zs where "zs = rev (takeWhile P (rev xs))"
  have "rev (takeWhile P (rev xs) @ dropWhile P (rev xs)) = xs"
    by simp
  then have "rev (dropWhile P (rev xs)) @ zs = xs"
    unfolding zs_def by (simp only: rev_append)
  with Cons have "(y # ys) @ zs = xs"
    by (simp only:)
  then obtain rest where "xs = y # rest"
    by auto
  with assms have "\<not> P y" by simp
  with Cons show ?thesis by simp
qed

lemma trim_idem: "trim (trim s) = trim s"
proof -
  let ?t = "dropWhile isWhiteSpace s"
  have h: "?t = [] \<or> \<not> isWhiteSpace (hd ?t)"
    using hd_dropWhile [of isWhiteSpace s] by auto
  have a: "dropWhile isWhiteSpace (trim s) = trim s"
    unfolding trim_def using h by (rule dropWhile_rev_noop)
  have b: "dropWhile isWhiteSpace (rev (trim s)) = rev (trim s)"
    by (simp add: trim_def)
  have "trim (trim s) = rev (dropWhile isWhiteSpace (rev (dropWhile isWhiteSpace (trim s))))"
    by (simp only: trim_def)
  also have "\<dots> = rev (dropWhile isWhiteSpace (rev (trim s)))"
    by (simp only: a)
  also have "\<dots> = trim s"
    by (simp only: b rev_rev_ident)
  finally show ?thesis .
qed

section \<open>Stored messages: facts\<close>

lemma find_replaceMessage:
  "find (\<lambda>x. message_id x = mid) ms = Some m \<Longrightarrow> message_id m' = mid \<Longrightarrow>
   find (\<lambda>x. message_id x = mid) (replaceMessage m' ms) = Some m'"
  by (induction ms) (auto split: if_splits)

lemma findMessageById_saveMessage:
  "findMessageById s mid = Some m \<Longrightarrow> message_id m' = mid \<Longrightarrow>
   findMessageById (saveMessage m' s) mid = Some m'"
  by (simp add: findMessageById_def saveMessage_def find_replaceMessage)

lemma find_message_id: "find (\<lambda>x. message_id x = mid) ms = Some m \<Longrightarrow> message_id m = mid"
  by (induction ms) (auto split: if_splits)

lemma findMessageById_id: "findMessageById s mid = Some m \<Longrightarrow> message_id m = mid"
  unfolding findMessageById_def by (rule find_message_id)


section \<open>The message routes: what they answer\<close>

lemma status_reply: "status (reply st b) = st"
  by (simp add: reply_def)

lemma list_ex_readEntries: "list_ex (\<lambda>rd. reader rd = u) (readBy m) \<longleftrightarrow> readEntries u m \<noteq> []"
  by (simp add: readEntries_def list_ex_iff filter_empty_conv)

lemma markRead_again:
  assumes "findMessageById s mid = Some m" and "readEntries u m \<noteq> []"
  shows "markRead s t u mid = (reply 200 (Msg MarkedRead), s)"
  using assms by (simp add: markRead_def list_ex_readEntries)

lemma markRead_first:
  assumes "findMessageById s mid = Some m" and "readEntries u m = []"
  shows "markRead s t u mid =
           (reply 200 (Msg MarkedRead),
            saveMessage (m\<lparr>readBy := readBy m @ [\<lparr>reader = u, readAt = t\<rparr>]\<rparr>) s)"
  using assms by (simp add: markRead_def list_ex_readEntries)

lemma markReadRepeat_again:
  assumes "findMessageById s mid = Some m" and "readEntries u m \<noteq> []"
  shows "markReadRepeat s u mid ts = (replicate (length ts) (reply 200 (Msg MarkedRead)), s)"
  using assms by (induction ts) (simp_all add: markRead_again)

lemma markRead_result:
  assumes "findMessageById s mid = Some m" and "length (readEntries u m) \<le> 1"
  shows "\<exists>m'. findMessageById (snd (markRead s t u mid)) mid = Some m'
              \<and> length (readEntries u m') = 1"
proof (cases "readEntries u m = []")
  case True
  let ?m' = "m\<lparr>readBy := readBy m @ [\<lparr>reader = u, readAt = t\<rparr>]\<rparr>"
  have "message_id ?m' = mid"
    using assms(1) by (simp add: findMessageById_id)
  with assms(1) have "findMessageById (saveMessage ?m' s) mid = Some ?m'"
    by (rule findMessageById_saveMessage)
  moreover have "length (readEntries u ?m') = 1"
    using True by (simp add: readEntries_def)
  ultimately show ?thesis
    using markRead_first [OF assms(1) True, of t] by simp
next
  case False
  with assms(2) have "length (readEntries u m) = 1"
    by (cases "readEntries u m") simp_all
  with assms(1) show ?thesis
    using markRead_again [OF assms(1) False, of t] by simp
qed

text \<open>
  C5: once a user has marked an existing message (whose receipts hold at most
  one entry of that user, as the data model requires), however many calls
  follow, the message holds exactly one entry of the user; the calls after
  the first leave the store as the first call left it, and every call
  replies 200.
\<close>

theorem markRead_idempotent:
  assumes "findMessageById s mid = Some m" and "length (readEntries u m) \<le> 1"
  shows "(\<exists>m'. findMessageById (snd (markReadRepeat s u mid (t # ts))) mid = Some m'
               \<and> length (readEntries u m') = 1)
         \<and> snd (markReadRepeat s u mid (t # ts)) = snd (markRead s t u mid)
         \<and> map status (fst (markReadRepeat s u mid (t # ts))) = replicate (Suc (length ts)) 200"
proof -
  obtain m' where m': "findMessageById (snd (markRead s t u mid)) mid = Some m'"
    and one: "length (readEntries u m') = 1"
    using markRead_result [OF assms] by blast
  from one have ne: "readEntries u m' \<noteq> []" by auto
  have st: "status (fst (markRead s t u mid)) = 200"
    using assms(1) by (simp add: markRead_def Let_def status_reply)
  have rest: "markReadRepeat (snd (markRead s t u mid)) u mid ts
                = (replicate (length ts) (reply 200 (Msg MarkedRead)), snd (markRead s t u mid))"
    using m' ne by (rule markReadRepeat_again)
  have all: "markReadRepeat s u mid (t # ts)
               = (fst (markRead s t u mid) # replicate (length ts) (reply 200 (Msg MarkedRead)),
                  snd (markRead s t u mid))"
    using rest by (simp add: case_prod_beta)
  show ?thesis
    unfolding all using m' one st by (simp add: status_reply)
qed

text \<open>
  C6: on an existing message, a caller other than the sender gets 403 from
  the edit (with content that is not blank) and from the delete, whatever the
  message holds, and the store stays as it was.
\<close>

theorem nonSender_forbidden:
  assumes "findMessageById s mid = Some m" and "sender m \<noteq> caller"
    and "\<exists>ch\<in>set c. \<not> isWhiteSpace ch"
  shows "status (fst (editMessage s now caller mid (Some c))) = 403
         \<and> snd (editMessage s now caller mid (Some c)) = s
         \<and> status (fst (deleteMessage s caller mid)) = 403
         \<and> snd (deleteMessage s caller mid) = s"
proof -
  from assms(3) have "trim c \<noteq> []" by (simp add: trim_Nil_iff)
  moreover from assms(3) have "c \<noteq> []" by auto
  ultimately have "editMessage s now caller mid (Some c) = (reply 403 (Msg OnlyOwnEdit), s)"
    using assms(1,2) by (simp add: editMessage_def)
  moreover have "deleteMessage s caller mid = (reply 403 (Msg OnlyOwnDelete), s)"
    using assms(1,2) by (simp add: deleteMessage_def)
  ultimately show ?thesis by (simp add: status_reply)
qed

text \<open>
  C10: the route of the edit checks only that the content is not blank. Content
  with a character that is not white space is never answered 400, whatever
  its length; on the sender's own message, content of more than 1000
  characters after trimming fails in the validation of the save (500, nothing
  stored), and shorter content is stored (200).
\<close>

theorem editMessage_route_check:
  assumes "\<exists>ch\<in>set c. \<not> isWhiteSpace ch"
  shows "status (fst (editMessage s now caller mid (Some c))) \<noteq> 400
         \<and> (\<forall>m. findMessageById s mid = Some m \<and> sender m = caller \<longrightarrow>
               (if 1000 < length (trim c)
                then editMessage s now caller mid (Some c) = (reply 500 (Msg InternalError), s)
                else status (fst (editMessage s now caller mid (Some c))) = 200))"
proof -
  from assms have t: "trim c \<noteq> []" by (simp add: trim_Nil_iff)
  from assms have c: "c \<noteq> []" by auto
  have "status (fst (editMessage s now caller mid (Some c))) \<noteq> 400"
  proof (cases "findMessageById s mid")
    case None
    with t c show ?thesis by (simp add: editMessage_def status_reply)
  next
    case (Some m)
    show ?thesis
    proof (cases "sender m = caller")
      case True
      with Some t c show ?thesis
        by (simp add: editMessage_def Let_def status_reply)
    next
      case False
      with Some t c show ?thesis by (simp add: editMessage_def status_reply)
    qed
  qed
  moreover have "editMessage s now caller mid (Some c) = (reply 500 (Msg InternalError), s)"
    if "findMessageById s mid = Some m" "sender m = caller" "1000 < length (trim c)" for m
    using that t c by (simp add: editMessage_def Let_def contentValid_def trim_idem)
  moreover have "status (fst (editMessage s now caller mid (Some c))) = 200"
    if "findMessageById s mid = Some m" "sender m = caller" "\<not> 1000 < length (trim c)" for m
    using that t c by (simp add: editMessage_def Let_def contentValid_def trim_idem status_reply)
  ultimately show ?thesis by auto
qed

section \<open>The message routes on the sample store\<close>

lemma sample_find_101: "findMessageById sampleStore 101 = Some (sampleMessage 1)"
  by (simp add: findMessageById_def sampleStore_def sampleMessage_def)

theorem markRead_idempotent_witness:
  "length (readEntries 11 (sampleMessage 1)) \<le> 1
   \<and> (\<exists>m'. findMessageById (snd (markReadRepeat sampleStore 11 101 [5, 6, 7])) 101 = Some m'
             \<and> length (readEntries 11 m') = 1)
   \<and> snd (markReadRepeat sampleStore 11 101 [5, 6, 7]) = snd (markRead sampleStore 5 11 101)
   \<and> map status (fst (markReadRepeat sampleStore 11 101 [5, 6, 7])) = [200, 200, 200]"
proof -
  have h: "length (readEntries 11 (sampleMessage 1)) \<le> 1"
    by (simp add: readEntries_def sampleMessage_def)
  have r: "replicate (Suc (length [6, 7 :: nat])) (200 :: nat) = [200, 200, 200]"
    by simp
  from markRead_idempotent [OF sample_find_101 h, of 5 "[6, 7]", unfolded r]
  show ?thesis using h by blast
qed

theorem nonSender_forbidden_witness:
  "sender (sampleMessage 1) \<noteq> 11
   \<and> status (fst (editMessage sampleStore 7 11 101 (Some (units ''hi!'')))) = 403
   \<and> snd (editMessage sampleStore 7 11 101 (Some (units ''hi!''))) = sampleStore
   \<and> status (fst (deleteMessage sampleStore 11 101)) = 403
   \<and> snd (deleteMessage sampleStore 11 101) = sampleStore"
proof -
  have h2: "sender (sampleMessage 1) \<noteq> 11"
    by (simp add: sampleMessage_def)
  have h3: "\<exists>ch\<in>set (units ''hi!''). \<not> isWhiteSpace ch"
    by (simp add: isWhiteSpace_def units_def)
  show ?thesis
    using h2 nonSender_forbidden [OF sample_find_101 h2 h3, of 7] by blast
qed

theorem editMessage_route_check_witness:
  "status (fst (editMessage sampleStore 7 10 101 (Some (replicate 1001 97)))) \<noteq> 400
   \<and> editMessage sampleStore 7 10 101 (Some (replicate 1001 97))
       = (reply 500 (Msg InternalError), sampleStore)"
proof -
  have ws: "\<not> isWhiteSpace 97"
    by (simp add: isWhiteSpace_def)
  then have h: "\<exists>ch\<in>set (replicate 1001 97). \<not> isWhiteSpace ch"
    by simp
  have len: "1000 < length (trim (replicate 1001 97))"
    using ws by (simp add: trim_def)
  have snd: "sender (sampleMessage 1) = 10"
    by (simp add: sampleMessage_def)
  from editMessage_route_check [OF h, of sampleStore 7 10 101]
  have a: "status (fst (editMessage sampleStore 7 10 101 (Some (replicate 1001 97)))) \<noteq> 400"
    and b: "findMessageById sampleStore 101 = Some (sampleMessage 1) \<and> sender (sampleMessage 1) = 10
            \<longrightarrow> (if 1000 < length (trim (replicate 1001 97))
                 then editMessage sampleStore 7 10 101 (Some (replicate 1001 97))
                        = (reply 500 (Msg InternalError), sampleStore)
                 else status (fst (editMessage sampleStore 7 10 101
                                     (Some (replicate 1001 97)))) = 200)"
    by blast+
  from b sample_find_101 snd len
  have "editMessage sampleStore 7 10 101 (Some (replicate 1001 97))
          = (reply 500 (Msg InternalError), sampleStore)"
    by (simp only: simp_thms if_True)
  with a show ?thesis by blast
qed

text \<open>
  Blank content, also of the white space beyond ASCII, is answered 400 before
  the message is loaded.
\<close>

lemma editMessage_blank_rejected:
  assumes "\<forall>ch\<in>set c. isWhiteSpace ch"
  shows "editMessage s now caller mid (Some c) = (reply 400 (Msg ContentRequired), s)"
proof -
  from assms have "trim c = []" by (simp add: trim_Nil_iff)
  then show ?thesis by (simp add: editMessage_def)
qed

lemma editMessage_nbsp_rejected:
  "editMessage s now caller mid (Some [160]) = (reply 400 (Msg ContentRequired), s)"
  by (rule editMessage_blank_rejected) (simp add: isWhiteSpace_def)

section \<open>Stored rooms: facts\<close>

lemma find_room_id: "find (\<lambda>x. room_id x = rid) rs = Some r \<Longrightarrow> room_id r = rid"
  by (induction rs) (auto split: if_splits)

lemma findRoomById_id: "findRoomById s rid = Some r \<Longrightarrow> room_id r = rid"
  unfolding findRoomById_def by (rule find_room_id)

lemma find_replaceRoom:
  "find (\<lambda>x. room_id x = rid) rs = Some r \<Longrightarrow> room_id r' = rid \<Longrightarrow>
   find (\<lambda>x. room_id x = rid) (replaceRoom r' rs) = Some r'"
  by (induction rs) (auto split: if_splits)

lemma find_replaceRoom_other:
  "rid' \<noteq> room_id r' \<Longrightarrow>
   find (\<lambda>x. room_id x = rid') (replaceRoom r' rs) = find (\<lambda>x. room_id x = rid') rs"
  by (induction rs) auto

lemma length_replaceRoom: "length (replaceRoom r' rs) = length rs"
  by (induction rs) auto

lemma findRoomById_saveRoom:
  assumes "findRoomById s rid = Some r" and "room_id r' = rid"
  shows "findRoomById (saveRoom now r' s) rid = Some (r'\<lparr>lastActivity := now\<rparr>)"
proof -
  have "room_id (preSave now r') = rid"
    using assms(2) by (simp add: preSave_def)
  with assms(1) show ?thesis
    unfolding findRoomById_def saveRoom_def
    by (simp add: find_replaceRoom preSave_def)
qed

lemma findRoomById_saveRoom_other:
  assumes "rid' \<noteq> room_id r'"
  shows "findRoomById (saveRoom now r' s) rid' = findRoomById s rid'"
  using assms unfolding findRoomById_def saveRoom_def
  by (simp add: find_replaceRoom_other preSave_def)

section \<open>The room routes: what they answer\<close>



lemma upper_full: "asciiUpper (units ''full'') = units ''FULL''"
  by code_simp




text \<open>
  Such a store arises through the routes alone: user 12, without a document
  in the user collection, joins the room while it has a free place.
\<close>

lemma orphanStore_reached:
  "joinRoom asciiUpper openStore 1 12 (Some (units ''full''))
     = (reply 200 (MsgRoom RoomJoined fullRoom), orphanStore)"
proof -
  let ?open = "fullRoom\<lparr>members := [\<lparr>user = 10, joinedAt = 0, role = Admin\<rparr>], lastActivity := 0\<rparr>"
  have h1: "joinRoomSchema (Some (units ''full''))"
    by (simp add: joinRoomSchema_def units_def)
  have h2: "findRoomByCode openStore (asciiUpper (units ''full'')) = Some ?open"
    unfolding upper_full
    by (simp add: findRoomByCode_def openStore_def orphanStore_def sampleStore_def
          sampleRoom_def fullRoom_def units_def)
  have p: "someMemberPopulated (userDocs openStore) 12 (members ?open) = Some False"
    by (simp add: openStore_def orphanStore_def sampleStore_def)
  have f: "preSave 1 (?open\<lparr>members := members ?open @ [\<lparr>user = 12, joinedAt = 1, role = Member\<rparr>]\<rparr>)
             = fullRoom"
    by (simp add: preSave_def fullRoom_def)
  have s: "pushUserRoom 12 (room_id ?open)
             (saveRoom 1 (?open\<lparr>members := members ?open @ [\<lparr>user = 12, joinedAt = 1, role = Member\<rparr>]\<rparr>)
                openStore) = orphanStore"
    unfolding saveRoom_def f
    by (simp add: pushUserRoom_def openStore_def orphanStore_def sampleStore_def
          sampleRoom_def fullRoom_def)
  show ?thesis
    using h1 h2 p f s by (simp add: joinRoom_def Let_def fullRoom_def)
qed

text \<open>
  C9: leaving an existing room replies 200; the stored room keeps exactly the
  entries of the other members, in their order, and is saved (so stamped with
  the time of the save); every other room and every message is as before; the
  room is pulled from the caller's user record and from no other. For a
  caller who is not a member the members are the same list.
\<close>

theorem leaveRoom_effect:
  assumes "findRoomById s rid = Some rm"
  shows "status (fst (leaveRoom s now uid rid)) = 200
         \<and> findRoomById (snd (leaveRoom s now uid rid)) rid
             = Some (rm\<lparr>members := filter (\<lambda>m. user m \<noteq> uid) (members rm),
                        lastActivity := now\<rparr>)
         \<and> (\<not> isMember rm uid \<longrightarrow> filter (\<lambda>m. user m \<noteq> uid) (members rm) = members rm)
         \<and> (\<forall>rid'. rid' \<noteq> rid \<longrightarrow>
               findRoomById (snd (leaveRoom s now uid rid)) rid' = findRoomById s rid')
         \<and> length (roomDocs (snd (leaveRoom s now uid rid))) = length (roomDocs s)
         \<and> messageDocs (snd (leaveRoom s now uid rid)) = messageDocs s
         \<and> userDocs (snd (leaveRoom s now uid rid))
             = map (\<lambda>u. if user_id u = uid then u\<lparr>rooms := removeAll rid (rooms u)\<rparr> else u)
                 (userDocs s)"
proof -
  let ?rm' = "rm\<lparr>members := filter (\<lambda>m. user m \<noteq> uid) (members rm)\<rparr>"
  have id: "room_id rm = rid"
    using assms by (rule findRoomById_id)
  then have id': "room_id ?rm' = rid" by simp
  have eq: "leaveRoom s now uid rid
              = (reply 200 (Msg RoomLeft), pullUserRoom uid rid (saveRoom now ?rm' s))"
    using assms id by (simp add: leaveRoom_def)
  have rooms: "roomDocs (pullUserRoom uid rid t) = roomDocs t" for t
    by (simp add: pullUserRoom_def)
  have found: "findRoomById (pullUserRoom uid rid t) x = findRoomById t x" for t x
    by (simp add: findRoomById_def rooms)
  have a: "findRoomById (saveRoom now ?rm' s) rid = Some (?rm'\<lparr>lastActivity := now\<rparr>)"
    using assms id' by (rule findRoomById_saveRoom)
  have b: "findRoomById (saveRoom now ?rm' s) rid' = findRoomById s rid'" if "rid' \<noteq> rid" for rid'
    using that id' by (simp add: findRoomById_saveRoom_other)
  have c: "\<not> isMember rm uid \<longrightarrow> filter (\<lambda>m. user m \<noteq> uid) (members rm) = members rm"
    by (simp add: isMember_def list_ex_iff filter_id_conv)
  have d: "length (roomDocs (saveRoom now ?rm' s)) = length (roomDocs s)"
    by (simp add: saveRoom_def length_replaceRoom)
  have e: "messageDocs (pullUserRoom uid rid (saveRoom now ?rm' s)) = messageDocs s"
    by (simp add: pullUserRoom_def saveRoom_def)
  have f: "userDocs (pullUserRoom uid rid (saveRoom now ?rm' s))
             = map (\<lambda>u. if user_id u = uid then u\<lparr>rooms := removeAll rid (rooms u)\<rparr> else u)
                 (userDocs s)"
    by (simp add: pullUserRoom_def saveRoom_def)
  show ?thesis
    unfolding eq using a b c d e f by (simp add: status_reply found rooms)
qed


lemma sample_find_room: "findRoomById sampleStore 1 = Some sampleRoom"
  by (simp add: findRoomById_def sampleStore_def sampleRoom_def)

theorem leaveRoom_effect_witness:
  "status (fst (leaveRoom sampleStore 9 10 1)) = 200
   \<and> findRoomById (snd (leaveRoom sampleStore 9 10 1)) 1
       = Some (sampleRoom\<lparr>members := [], lastActivity := 9\<rparr>)
   \<and> findRoomById (snd (leaveRoom sampleStore 9 10 1)) 2 = Some fullRoom
   \<and> messageDocs (snd (leaveRoom sampleStore 9 10 1)) = messageDocs sampleStore
   \<and> userDocs (snd (leaveRoom sampleStore 9 10 1))
       = [\<lparr>user_id = 10, rooms = [2]\<rparr>, \<lparr>user_id = 11, rooms = []\<rparr>, \<lparr>user_id = 12, rooms = [2]\<rparr>]"
proof -
  have m: "filter (\<lambda>m. user m \<noteq> 10) (members sampleRoom) = []"
    by (simp add: sampleRoom_def)
  have r2: "findRoomById sampleStore 2 = Some fullRoom"
    by (simp add: findRoomById_def sampleStore_def sampleRoom_def fullRoom_def)
  have u: "map (\<lambda>u. if user_id u = 10 then u\<lparr>rooms := removeAll 1 (rooms u)\<rparr> else u)
             (userDocs sampleStore)
           = [\<lparr>user_id = 10, rooms = [2]\<rparr>, \<lparr>user_id = 11, rooms = []\<rparr>, \<lparr>user_id = 12, rooms = [2]\<rparr>]"
    by (simp add: sampleStore_def)
  from leaveRoom_effect [OF sample_find_room, of 9 10, unfolded m u]
  show ?thesis using r2 by simp
qed

section \<open>Sending and membership\<close>

lemma findRoomById_messageDocs_update:
  "findRoomById (s\<lparr>messageDocs := ms\<rparr>) rid = findRoomById s rid"
  by (simp add: findRoomById_def)

lemma sendMessage_success:
  assumes "sendMessageSchema c (Some rid) ty rep"
    and "findRoomById s rid = Some rm"
    and "isMember rm uid"
    and "newMessage newId now c uid rid
           (case ty of None \<Rightarrow> (units ''text'') | Some t \<Rightarrow> if t = [] then (units ''text'') else t) rep = Some m"
    and "insertMessage m s = Some s1"
  shows "sendMessage s newId now uid c (Some rid) ty rep
           = (reply 201 (MsgData MessageSent m), saveRoom now (rm\<lparr>lastActivity := now\<rparr>) s1)"
proof -
  have "room_id rm = rid" using assms(2) by (rule findRoomById_id)
  then show ?thesis using assms by (simp add: sendMessage_def)
qed

lemma sendMessage_201:
  assumes "status (fst (sendMessage s newId now uid c roomId ty rep)) = 201"
  shows "\<exists>rid rm m s1. roomId = Some rid \<and> sendMessageSchema c (Some rid) ty rep
           \<and> findRoomById s rid = Some rm \<and> isMember rm uid
           \<and> newMessage newId now c uid rid
                (case ty of None \<Rightarrow> (units ''text'') | Some t \<Rightarrow> if t = [] then (units ''text'') else t) rep
               = Some m
           \<and> insertMessage m s = Some s1"
proof (cases "sendMessageSchema c roomId ty rep")
  case False
  with assms show ?thesis by (simp add: sendMessage_def status_reply)
next
  case valid: True
  then obtain rid where rid: "roomId = Some rid"
    by (auto simp add: sendMessageSchema_def)
  show ?thesis
  proof (cases "findRoomById s rid")
    case None
    with assms valid rid show ?thesis by (simp add: sendMessage_def status_reply)
  next
    case (Some rm)
    then have id: "room_id rm = rid" by (rule findRoomById_id)
    show ?thesis
    proof (cases "isMember rm uid")
      case False
      with assms valid rid Some show ?thesis by (simp add: sendMessage_def status_reply)
    next
      case mem: True
      let ?ty = "case ty of None \<Rightarrow> (units ''text'') | Some t \<Rightarrow> if t = [] then (units ''text'') else t"
      show ?thesis
      proof (cases "newMessage newId now c uid rid ?ty rep")
        case None
        with assms valid rid Some mem id show ?thesis
          by (simp add: sendMessage_def status_reply)
      next
        case m: (Some m)
        show ?thesis
        proof (cases "insertMessage m s")
          case None
          with assms valid rid Some mem id m show ?thesis
            by (simp add: sendMessage_def status_reply)
        next
          case s1: (Some s1)
          with valid rid Some mem m show ?thesis by simp
        qed
      qed
    qed
  qed
qed

text \<open>
  C8: a send that is answered 201 has stored one more message, the one of the
  reply: its sender is the caller, its room the room of the request, its type
  the type of the request or \<open>text\<close> without one, its \<open>replyTo\<close> the one
  of the request (none without one); and the stored room carries
  \<open>lastActivity = now\<close>.
\<close>

theorem sendMessage_created:
  assumes "sendMessage s newId now uid c roomId ty rep = (r, s')" and "status r = 201"
  shows "\<exists>rid rm m. roomId = Some rid \<and> findRoomById s rid = Some rm
           \<and> body r = MsgData MessageSent m
           \<and> messageDocs s' = messageDocs s @ [m]
           \<and> sender m = uid \<and> room m = rid
           \<and> type m = (case ty of None \<Rightarrow> (units ''text'') | Some t \<Rightarrow> t)
           \<and> replyTo m = rep
           \<and> findRoomById s' rid = Some (rm\<lparr>lastActivity := now\<rparr>)"
proof -
  let ?ty = "case ty of None \<Rightarrow> (units ''text'') | Some t \<Rightarrow> if t = [] then (units ''text'') else t"
  from assms have "status (fst (sendMessage s newId now uid c roomId ty rep)) = 201"
    by simp
  then obtain rid rm m s1 where rid: "roomId = Some rid"
    and valid: "sendMessageSchema c (Some rid) ty rep"
    and rm: "findRoomById s rid = Some rm" and mem: "isMember rm uid"
    and m: "newMessage newId now c uid rid ?ty rep = Some m"
    and s1: "insertMessage m s = Some s1"
    using sendMessage_201 by blast
  have eq: "sendMessage s newId now uid c (Some rid) ty rep
              = (reply 201 (MsgData MessageSent m), saveRoom now (rm\<lparr>lastActivity := now\<rparr>) s1)"
    using valid rm mem m s1 by (rule sendMessage_success)
  with assms(1) rid have r: "r = reply 201 (MsgData MessageSent m)"
    and s': "s' = saveRoom now (rm\<lparr>lastActivity := now\<rparr>) s1"
    by simp_all
  have s1': "s1 = s\<lparr>messageDocs := messageDocs s @ [m]\<rparr>"
    using s1 by (simp add: insertMessage_def split: if_splits)
  have ty: "?ty = (case ty of None \<Rightarrow> (units ''text'') | Some t \<Rightarrow> t)"
    using valid by (auto simp add: sendMessageSchema_def units_def split: option.splits)
  have fields: "sender m = uid \<and> room m = rid \<and> type m = ?ty \<and> replyTo m = rep"
    using m by (auto simp add: newMessage_def split: option.splits if_splits)
  have "findRoomById s1 rid = Some rm"
    using rm by (simp add: s1' findRoomById_messageDocs_update)
  moreover have "room_id (rm\<lparr>lastActivity := now\<rparr>) = rid"
    using rm by (simp add: findRoomById_id)
  ultimately have "findRoomById s' rid = Some (rm\<lparr>lastActivity := now, lastActivity := now\<rparr>)"
    unfolding s' by (rule findRoomById_saveRoom)
  then have room: "findRoomById s' rid = Some (rm\<lparr>lastActivity := now\<rparr>)"
    by simp
  have msgs: "messageDocs s' = messageDocs s @ [m]"
    by (simp add: s' s1' saveRoom_def)
  have "body r = MsgData MessageSent m"
    by (simp add: r reply_def)
  with rid rm msgs fields ty room show ?thesis
    by simp
qed


theorem sendMessage_created_witness:
  "status (fst (sendMessage sampleStore 200 99 10 (Some (units ''hello'')) (Some 1) None None)) = 201
   \<and> (\<exists>rm m. findRoomById sampleStore 1 = Some rm
         \<and> body (fst (sendMessage sampleStore 200 99 10 (Some (units ''hello'')) (Some 1) None None))
             = MsgData MessageSent m
         \<and> messageDocs (snd (sendMessage sampleStore 200 99 10 (Some (units ''hello'')) (Some 1) None None))
             = messageDocs sampleStore @ [m]
         \<and> sender m = 10 \<and> room m = 1 \<and> type m = (units ''text'') \<and> replyTo m = None
         \<and> findRoomById (snd (sendMessage sampleStore 200 99 10 (Some (units ''hello'')) (Some 1) None None)) 1
             = Some (rm\<lparr>lastActivity := 99\<rparr>))"
proof -
  let ?call = "sendMessage sampleStore 200 99 10 (Some (units ''hello'')) (Some 1) None None"
  have h1: "?call = (fst ?call, snd ?call)"
    by simp
  let ?m = "\<lparr>message_id = 200, content = (units ''hello''), sender = 10, room = 1, type = (units ''text''),
             edited = False, editedAt = None, readBy = [], replyTo = None, createdAt = 99\<rparr>"
  have v: "sendMessageSchema (Some (units ''hello'')) (Some 1) None None"
    by (simp add: sendMessageSchema_def units_def)
  have mem: "isMember sampleRoom 10"
    by (simp add: isMember_def sampleRoom_def)
  have nm: "newMessage 200 99 (Some (units ''hello'')) 10 1
              (case None of None \<Rightarrow> (units ''text'') | Some t \<Rightarrow> if t = [] then (units ''text'') else t) None
            = Some ?m"
    by (simp add: newMessage_def trim_def isWhiteSpace_def contentValid_def typeValid_def
          units_def)
  have ins: "insertMessage ?m sampleStore
               = Some (sampleStore\<lparr>messageDocs := messageDocs sampleStore @ [?m]\<rparr>)"
    by (simp add: insertMessage_def sampleStore_def sampleMessage_def)
  have h2: "status (fst ?call) = 201"
    using sendMessage_success [OF v sample_find_room mem nm ins]
    by (simp add: status_reply)
  from sendMessage_created [OF h1 h2]
  show ?thesis using h2 by auto
qed

text \<open>
  C2 as the code has it: for a caller who is not a member of an existing room,
  listing its messages is answered 403, and sending into it is answered 403
  when the body is valid and 400 when it is not; neither changes the store.
\<close>

theorem nonMember_list_send_forbidden:
  assumes "findRoomById s rid = Some rm" and "\<not> isMember rm uid"
  shows "status (listMessages cursor s uid rid pageQ limitQ) = 403
         \<and> status (fst (sendMessage s newId now uid c (Some rid) ty rep))
             = (if sendMessageSchema c (Some rid) ty rep then 403 else 400)
         \<and> snd (sendMessage s newId now uid c (Some rid) ty rep) = s"
  using assms
  by (simp add: listMessages_def sendMessage_def Let_def status_reply)

theorem nonMember_list_send_forbidden_witness:
  "\<not> isMember sampleRoom 11
   \<and> status (listMessages rejectingCursor sampleStore 11 1 (Some 1) (Some 2)) = 403
   \<and> status (fst (sendMessage sampleStore 200 99 11 (Some (units ''hello'')) (Some 1) None None)) = 403
   \<and> snd (sendMessage sampleStore 200 99 11 (Some (units ''hello'')) (Some 1) None None) = sampleStore"
proof -
  have h: "\<not> isMember sampleRoom 11"
    by (simp add: isMember_def sampleRoom_def)
  have v: "sendMessageSchema (Some (units ''hello'')) (Some 1) None None"
    by (simp add: sendMessageSchema_def units_def)
  from nonMember_list_send_forbidden [OF sample_find_room h, of rejectingCursor "Some 1" "Some 2" 200 99
          "Some (units ''hello'')" None None]
  show ?thesis using h v by simp
qed

text \<open>
  C2 as stated fails for the third route: marking a message read loads no
  room. User 11, who is not a member of the room of message 101, marks it, is
  answered 200 and gets a receipt.
\<close>

theorem markRead_nonMember_counterexample:
  "findMessageById sampleStore 101 = Some (sampleMessage 1)
   \<and> findRoomById sampleStore (room (sampleMessage 1)) = Some sampleRoom
   \<and> \<not> isMember sampleRoom 11
   \<and> status (fst (markRead sampleStore 5 11 101)) = 200
   \<and> status (fst (markRead sampleStore 5 11 101)) \<noteq> 403
   \<and> readBy (sampleMessage 1) = []
   \<and> map_option readBy (findMessageById (snd (markRead sampleStore 5 11 101)) 101)
       = Some [\<lparr>reader = 11, readAt = 5\<rparr>]"
proof -
  have r: "room (sampleMessage 1) = 1" and e: "readEntries 11 (sampleMessage 1) = []"
    and b: "readBy (sampleMessage 1) = []" and i: "message_id (sampleMessage 1) = 101"
    by (simp_all add: sampleMessage_def readEntries_def)
  have h: "\<not> isMember sampleRoom 11"
    by (simp add: isMember_def sampleRoom_def)
  have m: "markRead sampleStore 5 11 101
             = (reply 200 (Msg MarkedRead),
                saveMessage (sampleMessage 1\<lparr>readBy := readBy (sampleMessage 1)
                                                 @ [\<lparr>reader = 11, readAt = 5\<rparr>]\<rparr>) sampleStore)"
    using sample_find_101 e by (rule markRead_first)
  have f: "findMessageById (snd (markRead sampleStore 5 11 101)) 101
             = Some (sampleMessage 1\<lparr>readBy := [\<lparr>reader = 11, readAt = 5\<rparr>]\<rparr>)"
    unfolding m using findMessageById_saveMessage [OF sample_find_101, of "sampleMessage 1\<lparr>readBy := readBy (sampleMessage 1) @ [\<lparr>reader = 11, readAt = 5\<rparr>]\<rparr>"] i b
    by simp
  show ?thesis
    using sample_find_101 sample_find_room r h b f by (simp add: m status_reply)
qed

section \<open>Pages of messages\<close>






lemma listMessages_member:
  assumes "findRoomById s rid = Some rm" and "isMember rm uid"
  shows "listMessages cursor s uid rid pageQ limitQ
           = (case findPage cursor (orElse limitQ 50) ((orElse pageQ 1 - 1) * orElse limitQ 50)
                     (roomMessages s rid) of
                None \<Rightarrow> reply 500 (Msg InternalError)
              | Some messages \<Rightarrow>
                  reply 200
                    (Page (rev messages)
                       \<lparr>currentPage = orElse pageQ 1,
                        totalPages = \<lceil>real (length (roomMessages s rid))
                                       / real_of_int (orElse limitQ 50)\<rceil>,
                        totalMessages = length (roomMessages s rid),
                        hasMore = ((orElse pageQ 1 - 1) * orElse limitQ 50
                                     + int (length messages)
                                   < int (length (roomMessages s rid)))\<rparr>))"
  using assms by (simp add: listMessages_def Let_def cong: option.case_cong)


lemma mixed_find_room: "findRoomById mixedStore 1 = Some sampleRoom"
  by (simp add: findRoomById_def mixedStore_def sampleStore_def sampleRoom_def)

lemma mixed_roomMessages:
  "roomMessages mixedStore 1
     = [sampleMessage 1, sampleMessage 2, sampleMessage 3, sampleMessage 4, sampleMessage 5]"
  by (simp add: roomMessages_def mixedStore_def sampleStore_def sampleMessage_def
        otherMessage_def)


lemma sample_member: "isMember sampleRoom 10"
  by (simp add: isMember_def sampleRoom_def)

lemma mixed_page:
  "listMessages cursor mixedStore 10 1 (Some p) (Some 2)
     = (case findPage cursor 2 ((p - 1) * 2)
               [sampleMessage 1, sampleMessage 2, sampleMessage 3, sampleMessage 4,
                sampleMessage 5] of
          None \<Rightarrow> reply 500 (Msg InternalError)
        | Some messages \<Rightarrow>
            reply 200
              (Page (rev messages)
                 \<lparr>currentPage = p, totalPages = 3, totalMessages = 5,
                  hasMore = ((p - 1) * 2 + int (length messages) < 5)\<rparr>))"
  if "p \<noteq> 0"
proof -
  have o: "orElse (Some p) 1 = p" "orElse (Some 2) 50 = 2"
    using that by (simp_all add: orElse_def)
  show ?thesis
    unfolding listMessages_member [OF mixed_find_room sample_member] o mixed_roomMessages
    by (simp add: eval_nat_numeral cong: option.case_cong)
qed



text \<open>
  What a negative page gives is up to the driver: with one that rejects a
  negative skip the reply is 500.
\<close>

lemma listMessages_negative_page:
  "listMessages rejectingCursor mixedStore 10 1 (Some (- 1)) (Some 2)
     = reply 500 (Msg InternalError)"
  using mixed_page [of "- 1" rejectingCursor] by (simp add: findPage_def rejectingCursor_def)

section \<open>Room codes\<close>

lemma generateRoomCode_length: "length (generateRoomCode asciiUpper r) \<le> 6"
  by (simp add: generateRoomCode_def substring_def asciiUpper_def)

lemma generateRoomCode_short: "generateRoomCode asciiUpper (units ''0.i'') = units ''I''"
  by code_simp

lemma find_Some_mem: "find P rs = Some r \<Longrightarrow> r \<in> set rs"
  by (induction rs) (auto split: if_splits)

lemma find_None_iff_all: "find P rs = None \<longleftrightarrow> (\<forall>r\<in>set rs. \<not> P r)"
  by (induction rs) auto

lemma find_by_id_of_member:
  "distinct (map room_id rs) \<Longrightarrow> r \<in> set rs \<Longrightarrow> find (\<lambda>x. room_id x = room_id r) rs = Some r"
  by (induction rs) force+

lemma replaceRoom_keys:
  "find (\<lambda>x. room_id x = room_id r') rs = Some r \<Longrightarrow> code r' = code r \<Longrightarrow>
   map (\<lambda>x. (room_id x, code x)) (replaceRoom r' rs) = map (\<lambda>x. (room_id x, code x)) rs"
  by (induction rs) (auto split: if_splits)

lemma saveRoom_keys:
  assumes "findRoomById s (room_id r') = Some r" and "code r' = code r"
  shows "roomKeys (saveRoom now r' s) = roomKeys s"
proof -
  have "find (\<lambda>x. room_id x = room_id (preSave now r')) (roomDocs s) = Some r"
    using assms(1) by (simp add: findRoomById_def preSave_def)
  moreover have "code (preSave now r') = code r"
    using assms(2) by (simp add: preSave_def)
  ultimately have "map (\<lambda>x. (room_id x, code x)) (replaceRoom (preSave now r') (roomDocs s))
                     = map (\<lambda>x. (room_id x, code x)) (roomDocs s)"
    by (rule replaceRoom_keys)
  then show ?thesis
    by (simp add: roomKeys_def saveRoom_def)
qed

lemma roomKeys_pushUserRoom: "roomKeys (pushUserRoom uid rid s) = roomKeys s"
  by (simp add: roomKeys_def pushUserRoom_def)

lemma roomKeys_pullUserRoom: "roomKeys (pullUserRoom uid rid s) = roomKeys s"
  by (simp add: roomKeys_def pullUserRoom_def)

lemma roomKeys_messageDocs: "roomKeys (s\<lparr>messageDocs := ms\<rparr>) = roomKeys s"
  by (simp add: roomKeys_def)

lemma wellFormed_keys:
  "wellFormed s \<longleftrightarrow> distinct (map fst (roomKeys s)) \<and> distinct (map snd (roomKeys s))"
  by (simp add: wellFormed_def idsUnique_def codesUnique_def roomKeys_def comp_def)

lemma codesUpper_keys:
  "codesUpper toUpperCase s \<longleftrightarrow> list_all (\<lambda>k. snd k = toUpperCase (snd k)) (roomKeys s)"
  by (simp add: codesUpper_def roomKeys_def list_all_iff)

lemma wellFormed_same_keys: "roomKeys s' = roomKeys s \<Longrightarrow> wellFormed s \<Longrightarrow> wellFormed s'"
  by (simp add: wellFormed_keys)

lemma codesUpper_same_keys:
  "roomKeys s' = roomKeys s \<Longrightarrow> codesUpper toUpperCase s \<Longrightarrow> codesUpper toUpperCase s'"
  by (simp add: codesUpper_keys)

lemma joinRoom_keys:
  assumes "idsUnique s"
  shows "roomKeys (snd (joinRoom toUpperCase s now uid cd)) = roomKeys s"
proof (cases "joinRoomSchema cd")
  case False
  then show ?thesis by (simp add: joinRoom_def)
next
  case True
  then obtain c where c: "cd = Some c"
    by (auto simp add: joinRoomSchema_def split: option.splits)
  show ?thesis
  proof (cases "findRoomByCode s (toUpperCase c)")
    case None
    with True c show ?thesis by (simp add: joinRoom_def)
  next
    case (Some rm)
    let ?rm' = "rm\<lparr>members := members rm @ [\<lparr>user = uid, joinedAt = now, role = Member\<rparr>]\<rparr>"
    have "rm \<in> set (roomDocs s)"
      using Some unfolding findRoomByCode_def by (rule find_Some_mem)
    with assms have f: "findRoomById s (room_id rm) = Some rm"
      unfolding idsUnique_def findRoomById_def by (rule find_by_id_of_member)
    have k: "roomKeys (saveRoom now ?rm' s) = roomKeys s"
      by (rule saveRoom_keys [where r = rm]) (simp_all add: f)
    show ?thesis
    proof (cases "someMemberPopulated (userDocs s) uid (members rm)")
      case None
      with True c Some show ?thesis by (simp add: joinRoom_def)
    next
      case isMem: (Some isMem)
      with True c Some k show ?thesis
        by (simp add: joinRoom_def Let_def roomKeys_pushUserRoom)
    qed
  qed
qed

lemma leaveRoom_keys: "roomKeys (snd (leaveRoom s now uid rid)) = roomKeys s"
proof (cases "findRoomById s rid")
  case None
  then show ?thesis by (simp add: leaveRoom_def)
next
  case (Some rm)
  let ?rm' = "rm\<lparr>members := filter (\<lambda>m. user m \<noteq> uid) (members rm)\<rparr>"
  have id: "room_id rm = rid"
    using Some by (rule findRoomById_id)
  have "roomKeys (saveRoom now ?rm' s) = roomKeys s"
    by (rule saveRoom_keys [where r = rm]) (simp_all add: Some id)
  with Some show ?thesis
    by (simp add: leaveRoom_def roomKeys_pullUserRoom)
qed

lemma sendMessage_store:
  "snd (sendMessage s newId now uid c roomId ty rep) = s
   \<or> (\<exists>rid rm m. findRoomById s rid = Some rm
         \<and> snd (sendMessage s newId now uid c roomId ty rep)
             = saveRoom now (rm\<lparr>lastActivity := now\<rparr>) (s\<lparr>messageDocs := messageDocs s @ [m]\<rparr>))"
  by (auto simp add: sendMessage_def Let_def insertMessage_def split: option.splits if_splits)

lemma sendMessage_keys:
  "roomKeys (snd (sendMessage s newId now uid c roomId ty rep)) = roomKeys s"
proof -
  have "roomKeys (saveRoom now (rm\<lparr>lastActivity := now\<rparr>) (s\<lparr>messageDocs := ms\<rparr>)) = roomKeys s"
    if rm: "findRoomById s rid = Some rm" for rid rm ms
  proof -
    have id: "room_id rm = rid"
      using rm by (rule findRoomById_id)
    have "roomKeys (saveRoom now (rm\<lparr>lastActivity := now\<rparr>) (s\<lparr>messageDocs := ms\<rparr>))
            = roomKeys (s\<lparr>messageDocs := ms\<rparr>)"
      by (rule saveRoom_keys [where r = rm])
         (simp_all add: rm id findRoomById_messageDocs_update)
    then show ?thesis by (simp add: roomKeys_messageDocs)
  qed
  with sendMessage_store [of s newId now uid c roomId ty rep] show ?thesis
    by auto
qed

lemma markRead_keys: "roomKeys (snd (markRead s now uid mid)) = roomKeys s"
  by (simp add: markRead_def Let_def saveMessage_def roomKeys_def split: option.splits)

lemma editMessage_keys: "roomKeys (snd (editMessage s now uid mid c)) = roomKeys s"
  by (simp add: editMessage_def Let_def saveMessage_def roomKeys_def split: option.splits)

lemma deleteMessage_keys: "roomKeys (snd (deleteMessage s uid mid)) = roomKeys s"
  by (simp add: deleteMessage_def roomKeys_def split: option.splits)

lemma createRoom_given_code:
  assumes "createRoomSchema nm (Some c) desc mx priv"
  shows "createRoom toUpperCase s rnd newId now uid nm (Some c) desc mx priv
           = Some (case findRoomByCode s (toUpperCase c) of
                     Some existingRoom \<Rightarrow> (reply 409 (Msg RoomCodeExists), s)
                   | None \<Rightarrow>
                       (case newRoom toUpperCase newId now nm c desc uid
                               (case mx of None \<Rightarrow> 50 | Some m \<Rightarrow> if m = 0 then 50 else m)
                               (case priv of None \<Rightarrow> False | Some b \<Rightarrow> b) of
                          None \<Rightarrow> (reply 500 (Msg InternalError), s)
                        | Some rm \<Rightarrow>
                            (case insertRoom (preSave now rm) s of
                               None \<Rightarrow> (reply 500 (Msg InternalError), s)
                             | Some s' \<Rightarrow>
                                 (reply 201 (MsgRoom RoomCreated (preSave now rm)),
                                  pushUserRoom uid (room_id rm) s'))))"
proof -
  from assms have "c \<noteq> []"
    by (auto simp add: createRoomSchema_def)
  with assms show ?thesis
    by (simp add: createRoom_def)
qed

lemma createRoom_store:
  assumes "createRoom toUpperCase s rnd newId now uid nm cd desc mx priv = Some (r, s')"
  shows "s' = s
         \<or> (\<exists>rm c. s' = pushUserRoom uid (room_id rm) (s\<lparr>roomDocs := roomDocs s @ [rm]\<rparr>)
               \<and> \<not> list_ex (\<lambda>x. room_id x = room_id rm \<or> code x = code rm) (roomDocs s)
               \<and> code rm = toUpperCase c)"
proof (cases "createRoomSchema nm cd desc mx priv")
  case False
  with assms show ?thesis by (simp add: createRoom_def)
next
  case True
  then obtain c where c: "cd = Some c"
    by (auto simp add: createRoomSchema_def split: option.splits)
  have valid: "createRoomSchema nm (Some c) desc mx priv"
    using True by (simp only: c)
  let ?mx = "case mx of None \<Rightarrow> 50 | Some m \<Rightarrow> if m = 0 then 50 else m"
  let ?priv = "case priv of None \<Rightarrow> False | Some b \<Rightarrow> b"
  note eq = assms [unfolded c createRoom_given_code [OF valid]]
  show ?thesis
  proof (cases "findRoomByCode s (toUpperCase c)")
    case (Some existingRoom)
    with eq show ?thesis by simp
  next
    case None
    show ?thesis
    proof (cases "newRoom toUpperCase newId now nm c desc uid ?mx ?priv")
      case no: None
      with eq None show ?thesis by simp
    next
      case rm: (Some rm)
      have code: "code rm = toUpperCase c"
        using rm by (auto simp add: newRoom_def split: option.splits if_splits)
      show ?thesis
      proof (cases "insertRoom (preSave now rm) s")
        case dup: None
        with eq None rm show ?thesis by simp
      next
        case ins: (Some s1)
        from ins have s1: "s1 = s\<lparr>roomDocs := roomDocs s @ [preSave now rm]\<rparr>"
          and fresh: "\<not> list_ex (\<lambda>x. room_id x = room_id (preSave now rm)
                                    \<or> code x = code (preSave now rm)) (roomDocs s)"
          by (simp_all add: insertRoom_def split: if_splits)
        from eq None rm ins have "s' = pushUserRoom uid (room_id rm) s1"
          by simp
        then have "s' = pushUserRoom uid (room_id (preSave now rm))
                          (s\<lparr>roomDocs := roomDocs s @ [preSave now rm]\<rparr>)"
          by (simp add: s1 preSave_def)
        moreover have "code (preSave now rm) = toUpperCase c"
          by (simp add: preSave_def code)
        ultimately show ?thesis using fresh by blast
      qed
    qed
  qed
qed

lemma createRoom_wellFormed:
  assumes "wellFormed s"
    and "createRoom toUpperCase s rnd newId now uid nm cd desc mx priv = Some (r, s')"
  shows "wellFormed s'"
    and "(\<forall>t. toUpperCase (toUpperCase t) = toUpperCase t) \<Longrightarrow> codesUpper toUpperCase s
         \<Longrightarrow> codesUpper toUpperCase s'"
proof -
  from createRoom_store [OF assms(2)]
  consider "s' = s"
    | rm c where "s' = pushUserRoom uid (room_id rm) (s\<lparr>roomDocs := roomDocs s @ [rm]\<rparr>)"
        and "\<not> list_ex (\<lambda>x. room_id x = room_id rm \<or> code x = code rm) (roomDocs s)"
        and "code rm = toUpperCase c"
    by blast
  then have "wellFormed s'
             \<and> ((\<forall>t. toUpperCase (toUpperCase t) = toUpperCase t) \<longrightarrow> codesUpper toUpperCase s
                \<longrightarrow> codesUpper toUpperCase s')"
  proof cases
    case 1
    with assms(1) show ?thesis by simp
  next
    case 2
    have keys: "roomKeys s' = roomKeys s @ [(room_id rm, code rm)]"
      by (simp add: 2(1) roomKeys_def pushUserRoom_def)
    from 2(2) have "room_id rm \<notin> fst ` set (roomKeys s)" and "code rm \<notin> snd ` set (roomKeys s)"
      by (auto simp add: list_ex_iff roomKeys_def)
    with assms(1) have "wellFormed s'"
      by (simp add: wellFormed_keys keys)
    moreover have "codesUpper toUpperCase s'"
      if "\<forall>t. toUpperCase (toUpperCase t) = toUpperCase t" and "codesUpper toUpperCase s"
      using that 2(3) by (simp add: codesUpper_keys keys)
    ultimately show ?thesis by blast
  qed
  then show "wellFormed s'"
    and "(\<forall>t. toUpperCase (toUpperCase t) = toUpperCase t) \<Longrightarrow> codesUpper toUpperCase s
         \<Longrightarrow> codesUpper toUpperCase s'"
    by blast+
qed

lemma router_keys:
  assumes "idsUnique s"
    and "router toUpperCase cursor s rnd newId now uid req = Some (r, s')"
    and "\<forall>nm cd desc mx priv. req \<noteq> CreateRoom nm cd desc mx priv"
  shows "roomKeys s' = roomKeys s"
proof (cases req)
  case (CreateRoom nm cd desc mx priv)
  with assms(3) show ?thesis by simp
next
  case (JoinRoom cd)
  with assms(2) have "s' = snd (joinRoom toUpperCase s now uid cd)" by auto
  with assms(1) show ?thesis by (simp add: joinRoom_keys)
next
  case ListMyRooms
  with assms(2) show ?thesis by auto
next
  case (GetRoom rid)
  with assms(2) show ?thesis by auto
next
  case (LeaveRoom rid)
  with assms(2) have "s' = snd (leaveRoom s now uid rid)" by auto
  then show ?thesis by (simp add: leaveRoom_keys)
next
  case (ListMessages rid pageQ limitQ)
  with assms(2) show ?thesis by auto
next
  case (SendMessage c rid ty rep)
  with assms(2) have "s' = snd (sendMessage s newId now uid c rid ty rep)" by auto
  then show ?thesis by (simp add: sendMessage_keys)
next
  case (MarkRead mid)
  with assms(2) have "s' = snd (markRead s now uid mid)" by auto
  then show ?thesis by (simp add: markRead_keys)
next
  case (EditMessage mid c)
  with assms(2) have "s' = snd (editMessage s now uid mid c)" by auto
  then show ?thesis by (simp add: editMessage_keys)
next
  case (DeleteMessage mid)
  with assms(2) have "s' = snd (deleteMessage s uid mid)" by auto
  then show ?thesis by (simp add: deleteMessage_keys)
qed

lemma router_wellFormed:
  assumes "wellFormed s" and "router toUpperCase cursor s rnd newId now uid req = Some (r, s')"
  shows "wellFormed s'"
    and "(\<forall>t. toUpperCase (toUpperCase t) = toUpperCase t) \<Longrightarrow> codesUpper toUpperCase s
         \<Longrightarrow> codesUpper toUpperCase s'"
proof -
  have "wellFormed s'
        \<and> ((\<forall>t. toUpperCase (toUpperCase t) = toUpperCase t) \<longrightarrow> codesUpper toUpperCase s
           \<longrightarrow> codesUpper toUpperCase s')"
  proof (cases "\<exists>nm cd desc mx priv. req = CreateRoom nm cd desc mx priv")
    case True
    then obtain nm cd desc mx priv where req: "req = CreateRoom nm cd desc mx priv"
      by blast
    with assms(2)
    have c: "createRoom toUpperCase s rnd newId now uid nm cd desc mx priv = Some (r, s')"
      by simp
    from createRoom_wellFormed [OF assms(1) c] show ?thesis by blast
  next
    case False
    from assms(1) have "idsUnique s" by (simp add: wellFormed_def)
    then have "roomKeys s' = roomKeys s"
      using assms(2) False by (intro router_keys [of s toUpperCase cursor rnd newId now uid req r]) auto
    with assms(1) show ?thesis
      by (simp add: wellFormed_same_keys codesUpper_same_keys)
  qed
  then show "wellFormed s'"
    and "(\<forall>t. toUpperCase (toUpperCase t) = toUpperCase t) \<Longrightarrow> codesUpper toUpperCase s
         \<Longrightarrow> codesUpper toUpperCase s'"
    by blast+
qed

text \<open>
  C7: in a store with unique ids and unique codes, creating a room with a valid
  body whose code equals, letter case aside, the code of a stored room (these
  being stored in upper case) is answered 409 and the store is unchanged; and
  every request that returns leaves ids and codes unique, so no two rooms ever
  share a code. The stored codes stay in upper case, \<^verbatim>\<open>toUpperCase\<close> leaving
  its own results as they are.
\<close>

theorem createRoom_code_unique:
  assumes "wellFormed s"
  shows "(createRoomSchema nm (Some c) desc mx priv \<and> codesUpper toUpperCase s
            \<and> (\<exists>x\<in>set (roomDocs s). toUpperCase (code x) = toUpperCase c)
          \<longrightarrow> createRoom toUpperCase s rnd newId now uid nm (Some c) desc mx priv
                = Some (reply 409 (Msg RoomCodeExists), s))
         \<and> (\<forall>req r s'. router toUpperCase cursor s rnd newId now uid req = Some (r, s')
               \<longrightarrow> wellFormed s' \<and> codesUnique s'
                   \<and> ((\<forall>t. toUpperCase (toUpperCase t) = toUpperCase t)
                        \<and> codesUpper toUpperCase s \<longrightarrow> codesUpper toUpperCase s'))"
proof -
  have "createRoom toUpperCase s rnd newId now uid nm (Some c) desc mx priv
          = Some (reply 409 (Msg RoomCodeExists), s)"
    if valid: "createRoomSchema nm (Some c) desc mx priv"
      and upper: "codesUpper toUpperCase s"
      and used: "\<exists>x\<in>set (roomDocs s). toUpperCase (code x) = toUpperCase c"
  proof -
    from used obtain x where x: "x \<in> set (roomDocs s)" and eq: "toUpperCase (code x) = toUpperCase c"
      by blast
    from upper x have "code x = toUpperCase (code x)"
      by (simp add: codesUpper_def list_all_iff)
    with eq have "code x = toUpperCase c" by simp
    with x have "findRoomByCode s (toUpperCase c) \<noteq> None"
      by (auto simp add: findRoomByCode_def find_None_iff_all)
    then show ?thesis
      unfolding createRoom_given_code [OF valid] by auto
  qed
  moreover have "wellFormed s' \<and> codesUnique s'
                 \<and> ((\<forall>t. toUpperCase (toUpperCase t) = toUpperCase t)
                      \<and> codesUpper toUpperCase s \<longrightarrow> codesUpper toUpperCase s')"
    if "router toUpperCase cursor s rnd newId now uid req = Some (r, s')" for req r s'
    using router_wellFormed [OF assms that] by (auto simp add: wellFormed_def)
  ultimately show ?thesis by blast
qed

lemma upper_team: "asciiUpper (units ''team'') = units ''TEAM''"
  and upper_TEAM: "asciiUpper (units ''TEAM'') = units ''TEAM''"
  and upper_FULL: "asciiUpper (units ''FULL'') = units ''FULL''"
  by code_simp+

lemma asciiUpper_idem: "asciiUpper (asciiUpper t) = asciiUpper t"
  by (induction t) (auto simp add: asciiUpper_def)

lemma sample_wellFormed: "wellFormed sampleStore"
  by (simp add: wellFormed_def idsUnique_def codesUnique_def sampleStore_def
        sampleRoom_def fullRoom_def units_def)

lemma sample_codesUpper: "codesUpper asciiUpper sampleStore"
  by (simp add: codesUpper_def sampleStore_def sampleRoom_def fullRoom_def upper_TEAM upper_FULL)

theorem createRoom_code_unique_witness:
  "createRoom asciiUpper sampleStore sampleDraws 300 9 11 (Some (units ''Dup''))
       (Some (units ''team'')) None None None
     = Some (reply 409 (Msg RoomCodeExists), sampleStore)
   \<and> codesUnique (snd (joinRoom asciiUpper sampleStore 9 11 (Some (units ''team''))))
   \<and> codesUpper asciiUpper (snd (joinRoom asciiUpper sampleStore 9 11 (Some (units ''team''))))"
proof -
  have v: "createRoomSchema (Some (units ''Dup'')) (Some (units ''team'')) None None None"
    by (simp add: createRoomSchema_def units_def)
  have "sampleRoom \<in> set (roomDocs sampleStore)"
    by (simp add: sampleStore_def)
  moreover have "asciiUpper (code sampleRoom) = asciiUpper (units ''team'')"
    by (simp add: sampleRoom_def upper_team upper_TEAM)
  ultimately have u: "\<exists>x\<in>set (roomDocs sampleStore). asciiUpper (code x) = asciiUpper (units ''team'')"
    by blast
  have j: "router asciiUpper rejectingCursor sampleStore sampleDraws 300 9 11
             (JoinRoom (Some (units ''team'')))
             = Some (fst (joinRoom asciiUpper sampleStore 9 11 (Some (units ''team''))),
                     snd (joinRoom asciiUpper sampleStore 9 11 (Some (units ''team''))))"
    by simp
  have i: "\<forall>t. asciiUpper (asciiUpper t) = asciiUpper t"
    by (simp add: asciiUpper_idem)
  from createRoom_code_unique [OF sample_wellFormed, where toUpperCase = asciiUpper
         and nm = "Some (units ''Dup'')" and c = "units ''team''" and desc = None and mx = None
         and priv = None and rnd = sampleDraws and newId = 300 and now = 9 and uid = 11
         and cursor = rejectingCursor]
  show ?thesis using v u j i sample_codesUpper by blast
qed

text \<open>
  C1: a request to create a room without a code never reaches the generation
  of a code: the schema of the body requires the code, and the reply is 400
  with the store unchanged, whatever the rest of the body.
\<close>

theorem createRoom_without_code_rejected:
  "createRoom toUpperCase s rnd newId now uid nm None desc mx priv
     = Some (reply 400 (Msg InvalidData), s)"
  by (simp add: createRoom_def createRoomSchema_def)

end
